theory Spec2Isabelle
  imports Complex_Main "HOL-Library.Log_Nat"
begin

section \<open>Python values and the operations the scoring code applies to them\<close>

text \<open>
  \<^verbatim>\<open>AssessmentAttempt.answers\<close> is a \<^verbatim>\<open>JSONField\<close>: a dictionary from strings to
  decoded JSON. A decoded JSON value is one of the constructors below. A finite Python
  float is a binary64 number and is modelled by the rational it denotes; the two
  non-finite values that \<^verbatim>\<open>int()\<close> treats differently are kept apart. Strings are
  modelled over ASCII.
\<close>

datatype pyval =
    PNone
  | PBool bool
  | PInt int
  | PFloat rat
  | PFloatInf
  | PFloatNaN
  | PStr string
  | PList "pyval list"
  | PDict "(string \<times> pyval) list"

text \<open>
  The exceptions that can leave the modelled methods. \<open>SaveFailed\<close> stands for whatever
  \<^verbatim>\<open>Model.save()\<close> raises when it refuses to store an object.
\<close>

datatype py_error =
  IndexError | ValueError | TypeError | OverflowError | ZeroDivisionError | SaveFailed

subsection \<open>\<^verbatim>\<open>int(s)\<close> for a string\<close>

text \<open>
  Base 10: white space around the literal is skipped, one sign may come first, and the
  digits follow. Anything else raises \<^verbatim>\<open>ValueError\<close>.
\<close>

definition is_space :: "char \<Rightarrow> bool" where
  "is_space c = (c \<in> set [CHR '' '', CHR 0x09, CHR 0x0A, CHR 0x0B, CHR 0x0C, CHR 0x0D])"

definition is_digit :: "char \<Rightarrow> bool" where
  "is_digit c = (c \<in> set ''0123456789'')"

definition digit_value :: "char \<Rightarrow> nat" where
  "digit_value c = of_char c - 48"

definition strip :: "string \<Rightarrow> string" where
  "strip s = rev (dropWhile is_space (rev (dropWhile is_space s)))"

text \<open>
  The digits of a decimal literal: a single underscore is allowed between two digits,
  nowhere else. \<open>acc\<close> is the value read so far.
\<close>

fun digits_from :: "string \<Rightarrow> nat \<Rightarrow> nat option" where
  "digits_from [] acc = Some acc"
| "digits_from (c # cs) acc =
     (if is_digit c then digits_from cs (10 * acc + digit_value c)
      else if c = CHR ''_'' then
        (case cs of
           [] \<Rightarrow> None
         | d # ds \<Rightarrow> if is_digit d then digits_from cs acc else None)
      else None)"

definition unsigned_literal :: "string \<Rightarrow> nat option" where
  "unsigned_literal s =
     (case s of
        [] \<Rightarrow> None
      | c # cs \<Rightarrow> if is_digit c then digits_from s 0 else None)"

definition int_of_str :: "string \<Rightarrow> py_error + int" where
  "int_of_str s =
     (case strip s of
        [] \<Rightarrow> Inl ValueError
      | c # cs \<Rightarrow>
          if c = CHR ''-'' then
            (case unsigned_literal cs of None \<Rightarrow> Inl ValueError | Some n \<Rightarrow> Inr (- int n))
          else if c = CHR ''+'' then
            (case unsigned_literal cs of None \<Rightarrow> Inl ValueError | Some n \<Rightarrow> Inr (int n))
          else
            (case unsigned_literal (c # cs) of None \<Rightarrow> Inl ValueError | Some n \<Rightarrow> Inr (int n)))"

subsection \<open>\<^verbatim>\<open>int(x)\<close>, \<^verbatim>\<open>str(n)\<close>, \<^verbatim>\<open>xs[i]\<close>\<close>

text \<open>
  \<^verbatim>\<open>int\<close> truncates a float towards zero, raises \<^verbatim>\<open>ValueError\<close> on NaN and on a
  string that is no literal, \<^verbatim>\<open>OverflowError\<close> on an infinity, and \<^verbatim>\<open>TypeError\<close>
  on \<^verbatim>\<open>None\<close>, a list or a dictionary.
\<close>

definition int_of_float :: "rat \<Rightarrow> int" where
  "int_of_float r = (if 0 \<le> r then \<lfloor>r\<rfloor> else \<lceil>r\<rceil>)"

fun py_int :: "pyval \<Rightarrow> py_error + int" where
  "py_int PNone = Inl TypeError"
| "py_int (PBool b) = Inr (if b then 1 else 0)"
| "py_int (PInt i) = Inr i"
| "py_int (PFloat r) = Inr (int_of_float r)"
| "py_int PFloatInf = Inl OverflowError"
| "py_int PFloatNaN = Inl ValueError"
| "py_int (PStr s) = int_of_str s"
| "py_int (PList xs) = Inl TypeError"
| "py_int (PDict kvs) = Inl TypeError"

definition digit_char :: "nat \<Rightarrow> char" where
  "digit_char d = char_of (48 + d)"

fun str_nat :: "nat \<Rightarrow> string" where
  "str_nat n = (if n < 10 then [digit_char n] else str_nat (n div 10) @ [digit_char (n mod 10)])"

definition py_str :: "int \<Rightarrow> string" where
  "py_str i = (if i < 0 then CHR ''-'' # str_nat (nat (- i)) else str_nat (nat i))"

text \<open>
  List subscription: an index \<open>i\<close> with \<open>- len \<le> i < 0\<close> counts from the end, any
  index outside \<open>- len \<le> i < len\<close> raises \<^verbatim>\<open>IndexError\<close>.
\<close>

definition py_getitem :: "'a list \<Rightarrow> int \<Rightarrow> py_error + 'a" where
  "py_getitem xs i =
     (if 0 \<le> i \<and> i < int (length xs) then Inr (xs ! nat i)
      else if i < 0 \<and> - int (length xs) \<le> i then Inr (xs ! nat (int (length xs) + i))
      else Inl IndexError)"

subsection \<open>Binary64 arithmetic\<close>

text \<open>
  The nearest integer, a tie going to the even one.
\<close>

definition round_half_even :: "rat \<Rightarrow> int" where
  "round_half_even y =
     (let f = \<lfloor>y\<rfloor>; d = y - of_int f
      in if d < 1 / 2 then f
         else if 1 / 2 < d then f + 1
         else if even f then f else f + 1)"

text \<open>
  For \<open>x > 0\<close>, \<open>binade x\<close> is the exponent \<open>e\<close> with \<open>2 powi e \<le> x < 2 powi (e + 1)\<close>,
  found from the bit lengths of numerator and denominator. A double carries 53
  significant bits and no bit below \<open>2 powi (- 1074)\<close>: \<open>ulp_exponent x\<close> is the exponent
  of the last bit of the doubles next to \<open>x\<close>.
\<close>

definition binade :: "rat \<Rightarrow> int" where
  "binade x =
     (let d = bitlen (fst (quotient_of x)) - bitlen (snd (quotient_of x))
      in if 2 powi d \<le> x then d else d - 1)"

definition ulp_exponent :: "rat \<Rightarrow> int" where
  "ulp_exponent x = max (binade \<bar>x\<bar> - 52) (- 1074)"

text \<open>
  \<open>fl x\<close> is \<open>x\<close> rounded to the nearest double, a tie going to the even mantissa, as
  every arithmetic operation on doubles rounds its exact result. The exponent is not
  bounded above here: a result with \<open>too_large\<close> is one that the hardware replaces by an
  infinity and that Python's integer division reports as \<^verbatim>\<open>OverflowError\<close>.
\<close>

definition fl :: "rat \<Rightarrow> rat" where
  "fl x =
     (if x = 0 then 0
      else sgn x * of_int (round_half_even (\<bar>x\<bar> / 2 powi ulp_exponent x))
             * 2 powi ulp_exponent x)"

definition too_large :: "rat \<Rightarrow> bool" where
  "too_large x = (2 powi 1024 \<le> \<bar>fl x\<bar>)"

text \<open>
  \<^verbatim>\<open>a / b\<close> for two integers: the quotient correctly rounded to a double,
  \<^verbatim>\<open>ZeroDivisionError\<close> for a zero divisor, \<^verbatim>\<open>OverflowError\<close> when the quotient is
  too large for a double.
\<close>

definition int_truediv :: "int \<Rightarrow> int \<Rightarrow> py_error + rat" where
  "int_truediv a b =
     (if b = 0 then Inl ZeroDivisionError
      else if too_large (of_int a / of_int b) then Inl OverflowError
      else Inr (fl (of_int a / of_int b)))"

text \<open>
  \<^verbatim>\<open>a / b * 100\<close> for two non-negative integers. The product of the double \<open>q\<close> and
  100 is rounded once more. (Where it is used, \<open>a \<le> b\<close>, so \<open>q \<le> 1\<close> and the product
  stays far below the range in which a double product becomes an infinity.)
\<close>

definition percent :: "nat \<Rightarrow> nat \<Rightarrow> py_error + rat" where
  "percent a b =
     (case int_truediv (int a) (int b) of
        Inl e \<Rightarrow> Inl e
      | Inr q \<Rightarrow> Inr (fl (q * 100)))"

text \<open>
  \<^verbatim>\<open>round(x, 2)\<close> for a double \<open>x\<close>: the exact value of \<open>x\<close> is rounded to the nearest
  multiple of one hundredth, a tie going to the even multiple, and the result is the
  double nearest to that decimal number.
\<close>

definition py_round2 :: "rat \<Rightarrow> rat" where
  "py_round2 x = fl (of_int (round_half_even (x * 100)) / 100)"

text \<open>
  \<^verbatim>\<open>math.sqrt\<close> of a non-negative double, correctly rounded. With
  \<open>e = binade x div 2 - 52\<close> the number \<open>x / 2 powi (2 * e)\<close> is an integer \<open>n\<close> of 105 or
  106 bits, and the result is \<open>m * 2 powi e\<close> for the integer \<open>m\<close> nearest to the square
  root of \<open>n\<close>, which is \<open>isqrt n\<close> or its successor (a tie cannot occur).
\<close>

function isqrt :: "int \<Rightarrow> int" where
  "isqrt n =
     (if n < 4 then (if n \<le> 0 then 0 else 1)
      else let r = 2 * isqrt (n div 4) in if (r + 1) * (r + 1) \<le> n then r + 1 else r)"
  by pat_completeness auto
termination
  by (relation "measure nat") auto

declare isqrt.simps [simp del]

definition fsqrt :: "rat \<Rightarrow> rat" where
  "fsqrt x =
     (if x \<le> 0 then 0
      else let e = binade x div 2 - 52;
               n = \<lfloor>x / 2 powi (2 * e)\<rfloor>;
               s = isqrt n;
               m = (if n \<le> s * s + s then s else s + 1)
           in of_int m * 2 powi e)"

subsection \<open>Dictionaries\<close>

text \<open>
  A Python dictionary keeps its keys in the order they were first inserted; assigning to a
  key that is present replaces the value where it stands. It is modelled by an association
  list with these two operations.
\<close>

fun dict_set :: "'k \<Rightarrow> 'v \<Rightarrow> ('k \<times> 'v) list \<Rightarrow> ('k \<times> 'v) list" where
  "dict_set k v [] = [(k, v)]"
| "dict_set k v (p # d) = (if fst p = k then (k, v) # d else p # dict_set k v d)"

definition dict_get :: "('k \<times> 'v) list \<Rightarrow> 'k \<Rightarrow> 'v \<Rightarrow> 'v" where
  "dict_get d k dflt = (case map_of d k of None \<Rightarrow> dflt | Some v \<Rightarrow> v)"

section \<open>Assessments: questions, attempts and \<^verbatim>\<open>calculate_score\<close>\<close>

text \<open>
  \<^verbatim>\<open>Question.options\<close> holds \<^verbatim>\<open>[{text: string, isCorrect: boolean}]\<close>;
  \<^verbatim>\<open>points\<close> is a \<^verbatim>\<open>PositiveIntegerField\<close> (zero allowed), \<^verbatim>\<open>skill_category\<close> a
  nullable, blankable \<^verbatim>\<open>CharField\<close>.
\<close>

record choice =
  choice_text :: string
  isCorrect :: bool

record question =
  question_id :: int
  points :: nat
  skill_category :: "string option"
  options :: "choice list"

record attempt =
  answers :: "(string \<times> pyval) list"
  score :: rat
  passed :: bool
  skill_scores :: "(string \<times> rat) list"

text \<open>\<^verbatim>\<open>Question.get_correct_answer\<close>: the text of the first option flagged correct.\<close>

fun get_correct_answer_of :: "choice list \<Rightarrow> string option" where
  "get_correct_answer_of [] = None"
| "get_correct_answer_of (option # rest) =
     (if isCorrect option then Some (choice_text option) else get_correct_answer_of rest)"

definition get_correct_answer :: "question \<Rightarrow> string option" where
  "get_correct_answer q = get_correct_answer_of (options q)"

text \<open>\<^verbatim>\<open>question.skill_category or 'General'\<close>: \<^verbatim>\<open>None\<close> and the empty string are falsy.\<close>

definition skill_of :: "question \<Rightarrow> string" where
  "skill_of q =
     (case skill_category q of
        None \<Rightarrow> ''General''
      | Some s \<Rightarrow> if s = [] then ''General'' else s)"

text \<open>\<^verbatim>\<open>self.answers.get(str(question.id))\<close>: a missing key reads as \<^verbatim>\<open>None\<close>.\<close>

definition answer_for :: "(string \<times> pyval) list \<Rightarrow> question \<Rightarrow> pyval" where
  "answer_for ans q = dict_get ans (py_str (question_id q)) PNone"

text \<open>
  The body of the \<^verbatim>\<open>try\<close>: \<^verbatim>\<open>question.options[int(answer)]\<close>, then the flag of the
  selected option.
\<close>

definition selected_option_correct :: "question \<Rightarrow> pyval \<Rightarrow> py_error + bool" where
  "selected_option_correct q answer =
     (case py_int answer of
        Inl e \<Rightarrow> Inl e
      | Inr i \<Rightarrow>
          (case py_getitem (options q) i of
             Inl e \<Rightarrow> Inl e
           | Inr selected_option \<Rightarrow> Inr (isCorrect selected_option)))"

text \<open>
  The whole check of one answer: nothing is tried for \<^verbatim>\<open>None\<close>;
  \<^verbatim>\<open>except (IndexError, ValueError): pass\<close> swallows these two errors and lets every
  other one through.
\<close>

definition check_answer :: "question \<Rightarrow> pyval \<Rightarrow> py_error + bool" where
  "check_answer q answer =
     (if answer = PNone then Inr False
      else
        (case selected_option_correct q answer of
           Inl e \<Rightarrow> if e = IndexError \<or> e = ValueError then Inr False else Inl e
         | Inr b \<Rightarrow> Inr b))"

record score_state =
  earned_points :: nat
  skill_correct :: "(string \<times> nat) list"
  skill_total :: "(string \<times> nat) list"

definition score_question ::
    "(string \<times> pyval) list \<Rightarrow> question \<Rightarrow> score_state \<Rightarrow> py_error + score_state" where
  "score_question ans q st =
     (let skill = skill_of q;
          st1 = st\<lparr>skill_total :=
                     dict_set skill (dict_get (skill_total st) skill 0 + points q) (skill_total st)\<rparr>
      in case check_answer q (answer_for ans q) of
           Inl e \<Rightarrow> Inl e
         | Inr b \<Rightarrow>
             if b then
               Inr (st1\<lparr>earned_points := earned_points st1 + points q,
                        skill_correct :=
                          dict_set skill (dict_get (skill_correct st1) skill 0 + points q)
                            (skill_correct st1)\<rparr>)
             else Inr st1)"

fun score_questions ::
    "(string \<times> pyval) list \<Rightarrow> question list \<Rightarrow> score_state \<Rightarrow> py_error + score_state" where
  "score_questions ans [] st = Inr st"
| "score_questions ans (q # qs) st =
     (case score_question ans q st of
        Inl e \<Rightarrow> Inl e
      | Inr st' \<Rightarrow> score_questions ans qs st')"

definition initial_state :: score_state where
  "initial_state = \<lparr>earned_points = 0, skill_correct = [], skill_total = []\<rparr>"

text \<open>
  The second loop, over \<^verbatim>\<open>skill_total.items()\<close>, writes into the attempt's own
  \<^verbatim>\<open>skill_scores\<close> dictionary.
\<close>

fun skill_score_loop ::
    "(string \<times> nat) list \<Rightarrow> (string \<times> nat) list \<Rightarrow> (string \<times> rat) list
       \<Rightarrow> py_error + (string \<times> rat) list" where
  "skill_score_loop [] sc ss = Inr ss"
| "skill_score_loop ((skill, tot) # rest) sc ss =
     (let correct = dict_get sc skill 0
      in if 0 < tot then
           (case percent correct tot of
              Inl e \<Rightarrow> Inl e
            | Inr r \<Rightarrow> skill_score_loop rest sc (dict_set skill (py_round2 r) ss))
         else skill_score_loop rest sc (dict_set skill 0 ss))"

definition total_points :: "question list \<Rightarrow> nat" where
  "total_points questions = sum_list (map points questions)"

definition overall_score :: "nat \<Rightarrow> nat \<Rightarrow> py_error + rat" where
  "overall_score earned tot = (if 0 < tot then percent earned tot else Inr 0)"

text \<open>
  \<^verbatim>\<open>AssessmentAttempt.calculate_score\<close>, with the assessment's questions and passing
  score as arguments. The method ends with \<^verbatim>\<open>self.save()\<close>, which belongs to the
  framework and the database behind it: \<open>save\<close> says for every attempt whether it is
  stored (\<open>True\<close>) or \<^verbatim>\<open>save()\<close> raises. The updated attempt is returned; the method's
  return value is its \<open>score\<close>, the number computed here (the database column keeps two
  decimals of it).
\<close>

definition calculate_score ::
    "(attempt \<Rightarrow> bool) \<Rightarrow> question list \<Rightarrow> nat \<Rightarrow> attempt \<Rightarrow> py_error + attempt" where
  "calculate_score save questions passing_score self =
     (case score_questions (answers self) questions initial_state of
        Inl e \<Rightarrow> Inl e
      | Inr st \<Rightarrow>
          (case overall_score (earned_points st) (total_points questions) of
             Inl e \<Rightarrow> Inl e
           | Inr s \<Rightarrow>
               (case skill_score_loop (skill_total st) (skill_correct st) (skill_scores self) of
                  Inl e \<Rightarrow> Inl e
                | Inr ss \<Rightarrow>
                    (let self' = self\<lparr>score := s, passed := (of_nat passing_score \<le> s),
                                       skill_scores := ss\<rparr>
                     in if save self' then Inr self' else Inl SaveFailed))))"

text \<open>
  One behaviour of \<^verbatim>\<open>save()\<close>: the answers go into a JSON column, and every database
  refuses a document that holds NaN or an infinity, at any depth.
\<close>

fun json_number_free :: "pyval \<Rightarrow> bool" where
  "json_number_free PFloatInf = False"
| "json_number_free PFloatNaN = False"
| "json_number_free (PList xs) = list_all json_number_free xs"
| "json_number_free (PDict kvs) = list_all (\<lambda>kv. json_number_free (snd kv)) kvs"
| "json_number_free v = True"

definition save_json :: "attempt \<Rightarrow> bool" where
  "save_json self = list_all (\<lambda>kv. json_number_free (snd kv)) (answers self)"

text \<open>
  \<^verbatim>\<open>AttemptResultSerializer.get_questions_feedback\<close> decides \<^verbatim>\<open>is_correct\<close> for the
  same answer: it looks for the first option flagged correct and compares its position
  with \<^verbatim>\<open>int(answer)\<close>, outside any \<^verbatim>\<open>try\<close>.
\<close>

fun correct_idx_from :: "nat \<Rightarrow> choice list \<Rightarrow> nat option" where
  "correct_idx_from idx [] = None"
| "correct_idx_from idx (option # rest) =
     (if isCorrect option then Some idx else correct_idx_from (Suc idx) rest)"

definition feedback_is_correct :: "question \<Rightarrow> pyval \<Rightarrow> py_error + bool" where
  "feedback_is_correct q answer =
     (case correct_idx_from 0 (options q) of
        None \<Rightarrow> Inr False
      | Some idx \<Rightarrow>
          if answer = PNone then Inr False
          else (case py_int answer of Inl e \<Rightarrow> Inl e | Inr i \<Rightarrow> Inr (i = int idx)))"

section \<open>Gamification: \<^verbatim>\<open>calculate_level\<close>\<close>

text \<open>
  \<^verbatim>\<open>self.level = max(1, int(math.sqrt(self.total_xp / 100)) + 1)\<close>. The division of
  the two integers comes first and may raise \<^verbatim>\<open>OverflowError\<close>; \<^verbatim>\<open>math.sqrt\<close>
  raises \<^verbatim>\<open>ValueError\<close> on a negative argument; \<^verbatim>\<open>int\<close> truncates the root, which is
  not negative.
\<close>

record user_gamification =
  total_xp :: int
  level :: int

definition calculate_level :: "user_gamification \<Rightarrow> py_error + user_gamification" where
  "calculate_level self =
     (case int_truediv (total_xp self) 100 of
        Inl e \<Rightarrow> Inl e
      | Inr q \<Rightarrow>
          if q < 0 then Inl ValueError
          else Inr (self\<lparr>level := max 1 (int_of_float (fsqrt q) + 1)\<rparr>))"

section \<open>Notions used to state the properties\<close>

text \<open>A question counts as answered correctly when the check of its answer says so.\<close>

definition answered_correctly :: "(string \<times> pyval) list \<Rightarrow> question \<Rightarrow> bool" where
  "answered_correctly ans q = (check_answer q (answer_for ans q) = Inr True)"

text \<open>
  The value \<^verbatim>\<open>round((correct / total * 100), 2) if total > 0 else 0\<close> written into
  \<^verbatim>\<open>skill_scores\<close>, for \<open>correct \<le> total\<close>.
\<close>

definition percentage :: "nat \<Rightarrow> nat \<Rightarrow> rat" where
  "percentage correct tot =
     (if 0 < tot then py_round2 (fl (fl (of_nat correct / of_nat tot) * 100)) else 0)"

text \<open>
  The answer values that are \<^verbatim>\<open>null\<close>, a boolean, an integer, a finite float or a
  string: on these \<^verbatim>\<open>int()\<close> either succeeds or raises \<^verbatim>\<open>ValueError\<close>.
\<close>

fun plain_answer :: "pyval \<Rightarrow> bool" where
  "plain_answer (PList xs) = False"
| "plain_answer (PDict kvs) = False"
| "plain_answer PFloatInf = False"
| "plain_answer PFloatNaN = False"
| "plain_answer v = True"

text \<open>
  The specification's reading of the skill label: only an absent category is replaced by
  \<open>''General''\<close>.
\<close>

definition label_as_specified :: "question \<Rightarrow> string" where
  "label_as_specified q = (case skill_category q of None \<Rightarrow> ''General'' | Some s \<Rightarrow> s)"

text \<open>The specification's rounding: two decimals, a tie goes up.\<close>

definition round_half_up2 :: "rat \<Rightarrow> rat" where
  "round_half_up2 x = of_int \<lfloor>x * 100 + 1 / 2\<rfloor> / 100"

text \<open>The specification's level: the exact square root, rounded down, plus one.\<close>

definition level_as_specified :: "int \<Rightarrow> int" where
  "level_as_specified xp = max 1 (\<lfloor>sqrt (real_of_int xp / 100)\<rfloor> + 1)"

subsection \<open>Concrete assessments\<close>

text \<open>
  A freshly created attempt (the field defaults of \<^verbatim>\<open>AssessmentAttempt\<close>) carrying
  the submitted answers.
\<close>

definition new_attempt :: "(string \<times> pyval) list \<Rightarrow> attempt" where
  "new_attempt ans = \<lparr>answers = ans, score = 0, passed = False, skill_scores = []\<rparr>"

definition choice_of :: "string \<Rightarrow> bool \<Rightarrow> choice" where
  "choice_of t c = \<lparr>choice_text = t, isCorrect = c\<rparr>"

text \<open>The example of the specification: three questions, two skills.\<close>

definition Q1 :: question where
  "Q1 = \<lparr>question_id = 1, points = 1, skill_category = Some ''math'',
          options = [choice_of ''a'' True, choice_of ''b'' False]\<rparr>"

definition Q2 :: question where
  "Q2 = \<lparr>question_id = 2, points = 1, skill_category = Some ''math'',
          options = [choice_of ''a'' False, choice_of ''b'' True]\<rparr>"

definition Q3 :: question where
  "Q3 = \<lparr>question_id = 3, points = 2, skill_category = Some ''logic'',
          options = [choice_of ''a'' True, choice_of ''b'' False]\<rparr>"

text \<open>A question with two options flagged correct.\<close>

definition two_flagged :: question where
  "two_flagged = \<lparr>question_id = 7, points = 2, skill_category = None,
                   options = [choice_of ''a'' True, choice_of ''b'' True]\<rparr>"

text \<open>A question whose skill category is the empty string.\<close>

definition blank_skill :: question where
  "blank_skill = \<lparr>question_id = 4, points = 1, skill_category = Some [],
                   options = [choice_of ''a'' True, choice_of ''b'' False]\<rparr>"

text \<open>Questions worth 1 and 31, 29 and 21, 23 and 137 points, without a skill category.\<close>

definition light :: question where
  "light = \<lparr>question_id = 5, points = 1, skill_category = None,
             options = [choice_of ''a'' True, choice_of ''b'' False]\<rparr>"

definition heavy :: question where
  "heavy = \<lparr>question_id = 6, points = 31, skill_category = None,
             options = [choice_of ''a'' True, choice_of ''b'' False]\<rparr>"


definition q29 :: question where
  "q29 = \<lparr>question_id = 8, points = 29, skill_category = None,
           options = [choice_of ''a'' True, choice_of ''b'' False]\<rparr>"

definition q21 :: question where
  "q21 = \<lparr>question_id = 9, points = 21, skill_category = None,
           options = [choice_of ''a'' True, choice_of ''b'' False]\<rparr>"

definition q23 :: question where
  "q23 = \<lparr>question_id = 10, points = 23, skill_category = None,
           options = [choice_of ''a'' True, choice_of ''b'' False]\<rparr>"

definition q137 :: question where
  "q137 = \<lparr>question_id = 11, points = 137, skill_category = None,
            options = [choice_of ''a'' True, choice_of ''b'' False]\<rparr>"

section \<open>Facts about rounding to a double\<close>

lemma two_powi_pos: "0 < (2::rat) powi e"
  by simp

lemma two_powi_add: "(2::rat) powi (a + b) = 2 powi a * 2 powi b"
  by (simp add: power_int_add)

lemma two_powi_mono: "a \<le> b \<Longrightarrow> (2::rat) powi a \<le> 2 powi b"
  by (rule power_int_increasing) simp_all

lemma two_powi_strict_mono: "a < b \<Longrightarrow> (2::rat) powi a < 2 powi b"
  by (rule power_int_strict_increasing) simp_all

lemma two_powi_less_cancel: "(2::rat) powi a < 2 powi b \<Longrightarrow> a < b"
  using two_powi_mono[of b a] by (cases "a < b") auto

lemma two_powi_nat: "0 \<le> e \<Longrightarrow> (2::rat) powi e = of_int (2 ^ nat e)"
  by (simp add: power_int_def)

lemma two_powi_split:
  assumes "e \<le> j"
  shows "(2::rat) powi j = of_int (2 ^ nat (j - e)) * 2 powi e"
proof -
  have "(2::rat) powi j = 2 powi ((j - e) + e)" by simp
  also have "\<dots> = 2 powi (j - e) * 2 powi e" by (rule two_powi_add)
  also have "(2::rat) powi (j - e) = of_int (2 ^ nat (j - e))"
    using assms by (intro two_powi_nat) simp
  finally show ?thesis .
qed

lemma two_powi_diff: "(2::rat) powi a / 2 powi b = 2 powi (a - b)"
  by (simp add: power_int_diff)

subsection \<open>The nearest integer\<close>

lemma round_half_even_cases:
  obtains (down) "round_half_even y = \<lfloor>y\<rfloor>" and "y - of_int \<lfloor>y\<rfloor> \<le> 1 / 2"
      and "y - of_int \<lfloor>y\<rfloor> = 1 / 2 \<longrightarrow> even \<lfloor>y\<rfloor>"
    | (up) "round_half_even y = \<lfloor>y\<rfloor> + 1" and "1 / 2 \<le> y - of_int \<lfloor>y\<rfloor>"
      and "y - of_int \<lfloor>y\<rfloor> = 1 / 2 \<longrightarrow> odd \<lfloor>y\<rfloor>"
proof -
  define d where "d = y - of_int \<lfloor>y\<rfloor>"
  consider "d < 1 / 2" | "1 / 2 < d" | "d = 1 / 2" "even \<lfloor>y\<rfloor>" | "d = 1 / 2" "odd \<lfloor>y\<rfloor>"
    by fastforce
  then show ?thesis
  proof cases
    case 1
    then have "round_half_even y = \<lfloor>y\<rfloor>"
      unfolding round_half_even_def Let_def d_def by simp
    with 1 show ?thesis by (intro down) (simp_all add: d_def)
  next
    case 2
    then have "round_half_even y = \<lfloor>y\<rfloor> + 1"
      unfolding round_half_even_def Let_def d_def by simp
    with 2 show ?thesis by (intro up) (simp_all add: d_def)
  next
    case 3
    then have "round_half_even y = \<lfloor>y\<rfloor>"
      unfolding round_half_even_def Let_def d_def by simp
    with 3 show ?thesis by (intro down) (simp_all add: d_def)
  next
    case 4
    then have "round_half_even y = \<lfloor>y\<rfloor> + 1"
      unfolding round_half_even_def Let_def d_def by simp
    with 4 show ?thesis by (intro up) (simp_all add: d_def)
  qed
qed

lemma round_half_even_error: "\<bar>of_int (round_half_even y) - y\<bar> \<le> 1 / 2"
proof -
  have fl: "of_int \<lfloor>y\<rfloor> \<le> y" "y < of_int \<lfloor>y\<rfloor> + 1" by linarith+
  show ?thesis
  proof (cases y rule: round_half_even_cases)
    case down
    with fl show ?thesis by simp
  next
    case up
    with fl show ?thesis by simp
  qed
qed

lemma round_half_even_tie:
  assumes "\<bar>of_int (round_half_even y) - y\<bar> = 1 / 2"
  shows "even (round_half_even y)"
proof (cases y rule: round_half_even_cases)
  case down
  have "of_int \<lfloor>y\<rfloor> \<le> y" by linarith
  with down(1) assms have "y - of_int \<lfloor>y\<rfloor> = 1 / 2" by simp
  with down show ?thesis by simp
next
  case up
  have "y < of_int \<lfloor>y\<rfloor> + 1" by linarith
  with up(1) assms have "y - of_int \<lfloor>y\<rfloor> = 1 / 2" by simp
  with up show ?thesis by simp
qed

lemma round_half_even_of_int: "round_half_even (of_int k) = k"
  unfolding round_half_even_def by simp

lemma round_half_even_mono:
  assumes "y \<le> z"
  shows "round_half_even y \<le> round_half_even z"
proof (rule ccontr)
  assume "\<not> round_half_even y \<le> round_half_even z"
  then have gt: "round_half_even z + 1 \<le> round_half_even y" by simp
  then have "(of_int (round_half_even z) :: rat) + 1 \<le> of_int (round_half_even y)"
    by (metis of_int_1 of_int_add of_int_le_iff)
  moreover have "of_int (round_half_even y) - 1 / 2 \<le> y"
    using round_half_even_error[of y] by linarith
  moreover have "z \<le> of_int (round_half_even z) + 1 / 2"
    using round_half_even_error[of z] by linarith
  ultimately have "y = z" using assms by linarith
  with gt show False by simp
qed

lemma round_half_even_le: "y \<le> of_int k \<Longrightarrow> round_half_even y \<le> k"
  using round_half_even_mono[of y "of_int k"] by (simp add: round_half_even_of_int)

lemma round_half_even_ge: "of_int k \<le> y \<Longrightarrow> k \<le> round_half_even y"
  using round_half_even_mono[of "of_int k" y] by (simp add: round_half_even_of_int)

subsection \<open>The binade of a positive number\<close>

lemma bitlen_in_powers:
  assumes "0 < p"
  shows "(2::rat) powi (bitlen p - 1) \<le> of_int p" and "of_int p < (2::rat) powi bitlen p"
proof -
  have b: "1 \<le> bitlen p" using assms by (simp add: bitlen_alt_def)
  have "(of_int (2 ^ nat (bitlen p - 1)) :: rat) \<le> of_int p"
    using bitlen_bounds[OF assms] by (simp only: of_int_le_iff)
  then show "(2::rat) powi (bitlen p - 1) \<le> of_int p"
    using b by (simp add: two_powi_nat)
  have "(of_int p :: rat) < of_int (2 ^ nat (bitlen p))"
    using bitlen_bounds[OF assms] by (simp only: of_int_less_iff)
  then show "of_int p < (2::rat) powi bitlen p"
    using b by (simp add: two_powi_nat)
qed

lemma binade_bounds:
  assumes "0 < x"
  shows "2 powi binade x \<le> x" and "x < 2 powi (binade x + 1)"
proof -
  obtain p q where pq: "quotient_of x = (p, q)" by (cases "quotient_of x")
  have q: "0 < q" using quotient_of_denom_pos[OF pq] .
  have x: "x = of_int p / of_int q" using quotient_of_div[OF pq] .
  have p: "0 < p" using assms q unfolding x by (simp add: zero_less_divide_iff)
  define d where "d = bitlen p - bitlen q"
  have bp: "1 \<le> bitlen p" and bq: "1 \<le> bitlen q"
    using p q by (simp_all add: bitlen_alt_def)
  have p1: "(2::rat) powi (bitlen p - 1) \<le> of_int p"
    and p2: "of_int p < (2::rat) powi bitlen p"
    using bitlen_in_powers[OF p] by simp_all
  have q1: "(2::rat) powi (bitlen q - 1) \<le> of_int q"
    and q2: "of_int q < (2::rat) powi bitlen q"
    using bitlen_in_powers[OF q] by simp_all
  have qpos: "(0::rat) < of_int q" using q by simp
  have lo: "2 powi (d - 1) \<le> x"
  proof -
    have "2 powi (d - 1) * of_int q \<le> 2 powi (d - 1) * (2::rat) powi bitlen q"
      using q2 by (intro mult_left_mono) simp_all
    also have "\<dots> = 2 powi (bitlen p - 1)"
      unfolding d_def by (simp flip: two_powi_add)
    also have "\<dots> \<le> of_int p" by (rule p1)
    finally show ?thesis unfolding x using qpos by (simp add: le_divide_eq)
  qed
  have hi: "x < 2 powi (d + 1)"
  proof -
    have "of_int p < (2::rat) powi bitlen p" by (rule p2)
    also have "\<dots> = 2 powi (d + 1) * 2 powi (bitlen q - 1)"
      unfolding d_def by (simp flip: two_powi_add)
    also have "\<dots> \<le> 2 powi (d + 1) * of_int q"
      using q1 by (intro mult_left_mono) simp_all
    finally show ?thesis unfolding x using qpos by (simp add: divide_less_eq)
  qed
  have b: "binade x = (if 2 powi d \<le> x then d else d - 1)"
    unfolding binade_def d_def pq by simp
  show "2 powi binade x \<le> x" using lo unfolding b by simp
  show "x < 2 powi (binade x + 1)" using hi unfolding b by (simp add: not_le)
qed

lemma binade_unique:
  assumes "2 powi e \<le> x" and "x < 2 powi (e + 1)"
  shows "binade x = e"
proof -
  have pos: "0 < x" using assms(1) two_powi_pos[of e] by linarith
  from binade_bounds[OF pos] assms
  have "(2::rat) powi binade x < 2 powi (e + 1)" "(2::rat) powi e < 2 powi (binade x + 1)"
    by linarith+
  then have "binade x < e + 1" "e < binade x + 1"
    by (auto dest: two_powi_less_cancel)
  then show ?thesis by simp
qed

lemma binade_less: "0 < x \<Longrightarrow> x < 2 powi e \<Longrightarrow> binade x < e"
  using binade_bounds(1)[of x] two_powi_less_cancel[of "binade x" e] by linarith

lemma binade_ge: "2 powi e \<le> x \<Longrightarrow> e \<le> binade x"
proof -
  assume a: "2 powi e \<le> x"
  then have pos: "0 < x" using two_powi_pos[of e] by linarith
  from binade_bounds(2)[OF pos] a have "(2::rat) powi e < 2 powi (binade x + 1)" by linarith
  then show ?thesis by (auto dest: two_powi_less_cancel)
qed

lemma binade_mono: "0 < x \<Longrightarrow> x \<le> y \<Longrightarrow> binade x \<le> binade y"
  using binade_bounds(1)[of x] binade_ge[of "binade x" y] by linarith

lemma ulp_exponent_mono: "0 < x \<Longrightarrow> x \<le> y \<Longrightarrow> ulp_exponent x \<le> ulp_exponent y"
  unfolding ulp_exponent_def using binade_mono[of x y] by simp

lemma ulp_exponent_less:
  "0 < x \<Longrightarrow> x < 2 powi e \<Longrightarrow> ulp_exponent x \<le> max (e - 53) (- 1074)"
  unfolding ulp_exponent_def using binade_less[of x e] by simp

subsection \<open>Rounding\<close>

lemma fl_pos:
  "0 < x \<Longrightarrow> fl x = of_int (round_half_even (x / 2 powi ulp_exponent x)) * 2 powi ulp_exponent x"
  unfolding fl_def by simp

lemma fl_zero: "fl 0 = 0"
  unfolding fl_def by simp

lemma fl_nonneg: "0 \<le> x \<Longrightarrow> 0 \<le> fl x"
proof (cases "x = 0")
  case True
  then show ?thesis by (simp add: fl_zero)
next
  case False
  assume "0 \<le> x"
  with False have pos: "0 < x" by simp
  have "(of_int 0 :: rat) \<le> x / 2 powi ulp_exponent x" using pos by simp
  then have "0 \<le> round_half_even (x / 2 powi ulp_exponent x)"
    by (rule round_half_even_ge)
  then show ?thesis unfolding fl_pos[OF pos] by simp
qed

lemma fl_error:
  assumes "0 < x"
  shows "\<bar>fl x - x\<bar> \<le> 2 powi ulp_exponent x / 2"
proof -
  let ?u = "(2::rat) powi ulp_exponent x"
  have u: "0 < ?u" by simp
  have "fl x - x = (of_int (round_half_even (x / ?u)) - x / ?u) * ?u"
    unfolding fl_pos[OF assms] using u by (simp add: algebra_simps)
  then have "\<bar>fl x - x\<bar> = \<bar>of_int (round_half_even (x / ?u)) - x / ?u\<bar> * ?u"
    using u by (simp add: abs_mult)
  also have "\<dots> \<le> 1 / 2 * ?u"
    using round_half_even_error[of "x / ?u"] u by (intro mult_right_mono) simp_all
  finally show ?thesis by simp
qed

text \<open>
  Rounding never crosses a number \<open>k * 2 powi j\<close> of the grid the rounding works on.
\<close>

lemma fl_le_grid:
  assumes "0 < x" and "x \<le> of_int k * 2 powi j" and "ulp_exponent x \<le> j"
  shows "fl x \<le> of_int k * 2 powi j"
proof -
  let ?e = "ulp_exponent x"
  have j: "(2::rat) powi j = of_int (2 ^ nat (j - ?e)) * 2 powi ?e"
    using assms(3) by (rule two_powi_split)
  have "x / 2 powi ?e \<le> of_int k * 2 powi j / 2 powi ?e"
    using assms(2) by (intro divide_right_mono) simp_all
  also have "\<dots> = of_int (k * 2 ^ nat (j - ?e))"
    unfolding j by simp
  finally have "round_half_even (x / 2 powi ?e) \<le> k * 2 ^ nat (j - ?e)"
    by (rule round_half_even_le)
  then have "(of_int (round_half_even (x / 2 powi ?e)) :: rat) \<le> of_int (k * 2 ^ nat (j - ?e))"
    by (simp only: of_int_le_iff)
  then have "fl x \<le> of_int (k * 2 ^ nat (j - ?e)) * 2 powi ?e"
    unfolding fl_pos[OF assms(1)] by (intro mult_right_mono) simp_all
  also have "\<dots> = of_int k * 2 powi j" unfolding j by simp
  finally show ?thesis .
qed

lemma fl_ge_grid:
  assumes "0 < x" and "of_int k * 2 powi j \<le> x" and "ulp_exponent x \<le> j"
  shows "of_int k * 2 powi j \<le> fl x"
proof -
  let ?e = "ulp_exponent x"
  have j: "(2::rat) powi j = of_int (2 ^ nat (j - ?e)) * 2 powi ?e"
    using assms(3) by (rule two_powi_split)
  have "(of_int (k * 2 ^ nat (j - ?e)) :: rat) = of_int k * 2 powi j / 2 powi ?e"
    unfolding j by simp
  also have "\<dots> \<le> x / 2 powi ?e"
    using assms(2) by (intro divide_right_mono) simp_all
  finally have "k * 2 ^ nat (j - ?e) \<le> round_half_even (x / 2 powi ?e)"
    by (rule round_half_even_ge)
  then have "(of_int (k * 2 ^ nat (j - ?e)) :: rat) \<le> of_int (round_half_even (x / 2 powi ?e))"
    by (simp only: of_int_le_iff)
  then have "of_int (k * 2 ^ nat (j - ?e)) * 2 powi ?e \<le> fl x"
    unfolding fl_pos[OF assms(1)] by (intro mult_right_mono) simp_all
  moreover have "(of_int (k * 2 ^ nat (j - ?e)) :: rat) * 2 powi ?e = of_int k * 2 powi j"
    unfolding j by simp
  ultimately show ?thesis by (simp only:)
qed

lemma fl_mono:
  assumes "0 \<le> x" and "x \<le> y"
  shows "fl x \<le> fl y"
proof (cases "x = 0")
  case True
  then show ?thesis using fl_nonneg[of y] assms by (simp add: fl_zero)
next
  case False
  with assms have x: "0 < x" and y: "0 < y" by simp_all
  have le: "ulp_exponent x \<le> ulp_exponent y" using ulp_exponent_mono[OF x assms(2)] .
  show ?thesis
  proof (cases "ulp_exponent x = ulp_exponent y")
    case True
    have "x / 2 powi ulp_exponent y \<le> y / 2 powi ulp_exponent y"
      using assms(2) by (intro divide_right_mono) simp_all
    then have "round_half_even (x / 2 powi ulp_exponent y)
                 \<le> round_half_even (y / 2 powi ulp_exponent y)"
      by (rule round_half_even_mono)
    then have "(of_int (round_half_even (x / 2 powi ulp_exponent y)) :: rat)
                 \<le> of_int (round_half_even (y / 2 powi ulp_exponent y))"
      by (simp only: of_int_le_iff)
    then show ?thesis
      unfolding fl_pos[OF x] fl_pos[OF y] True by (intro mult_right_mono) simp_all
  next
    case False
    with le have lt: "ulp_exponent x < ulp_exponent y" by simp
    then have by52: "ulp_exponent y = binade y - 52" and bxy: "binade x < binade y"
      using x y unfolding ulp_exponent_def by (auto simp: max_def split: if_splits)
    let ?c = "(2::rat) powi binade y"
    have c: "?c = of_int 1 * 2 powi binade y" by simp
    have "x < 2 powi (binade x + 1)" using binade_bounds(2)[OF x] .
    also have "\<dots> \<le> ?c" using bxy by (intro two_powi_mono) simp
    finally have xc: "x \<le> of_int 1 * 2 powi binade y" by simp
    have cy: "of_int 1 * 2 powi binade y \<le> y" using binade_bounds(1)[OF y] by simp
    have "fl x \<le> of_int 1 * 2 powi binade y"
      using lt by52 by (intro fl_le_grid[OF x xc]) simp
    also have "\<dots> \<le> fl y"
      using by52 by (intro fl_ge_grid[OF y cy]) simp
    finally show ?thesis .
  qed
qed


section \<open>Facts about the Python operations\<close>


lemma py_getitem_out_of_range:
  "i < - int (length xs) \<or> int (length xs) \<le> i \<Longrightarrow> py_getitem xs i = Inl IndexError"
  unfolding py_getitem_def by auto

lemma py_getitem_error: "py_getitem xs i = Inl e \<Longrightarrow> e = IndexError"
  unfolding py_getitem_def by (auto split: if_splits)


lemma int_of_str_error: "int_of_str s = Inl e \<Longrightarrow> e = ValueError"
  unfolding int_of_str_def by (auto split: list.splits if_splits option.splits)

lemma check_answer_error:
  "check_answer q v = Inl e \<longleftrightarrow> v \<noteq> PNone \<and> py_int v = Inl e \<and> (e = TypeError \<or> e = OverflowError)"
  unfolding check_answer_def selected_option_correct_def
  by (cases v) (auto split: sum.splits dest: py_getitem_error int_of_str_error)

section \<open>Facts about dictionaries and the scoring loop\<close>

lemma map_of_dict_set: "map_of (dict_set k v d) = (map_of d)(k \<mapsto> v)"
  by (induction d) (auto simp: fun_eq_iff)

lemma keys_dict_set: "fst ` set (dict_set k v d) = insert k (fst ` set d)"
  by (induction d) auto

lemma map_fst_dict_set:
  "map fst (dict_set k v d) = (if k \<in> fst ` set d then map fst d else map fst d @ [k])"
  by (induction d) auto

lemma distinct_dict_set: "distinct (map fst d) \<Longrightarrow> distinct (map fst (dict_set k v d))"
  by (simp add: map_fst_dict_set)

lemma dict_get_dict_set:
  "dict_get (dict_set k v d) k' dflt = (if k' = k then v else dict_get d k' dflt)"
  by (simp add: dict_get_def map_of_dict_set)

lemma score_question_error:
  "score_question ans q st = Inl e \<longleftrightarrow> check_answer q (answer_for ans q) = Inl e"
  unfolding score_question_def by (auto simp: Let_def split: sum.splits)

lemma score_question_result:
  assumes "score_question ans q st = Inr st'"
  shows "earned_points st' = earned_points st + (if answered_correctly ans q then points q else 0)"
    and "skill_total st' =
           dict_set (skill_of q) (dict_get (skill_total st) (skill_of q) 0 + points q) (skill_total st)"
    and "skill_correct st' =
           (if answered_correctly ans q
            then dict_set (skill_of q) (dict_get (skill_correct st) (skill_of q) 0 + points q) (skill_correct st)
            else skill_correct st)"
  using assms unfolding score_question_def answered_correctly_def
  by (auto simp: Let_def split: sum.splits if_splits)

lemma score_questions_error:
  "score_questions ans qs st = Inl e \<Longrightarrow> \<exists>q \<in> set qs. check_answer q (answer_for ans q) = Inl e"
  by (induction qs arbitrary: st) (auto split: sum.splits simp: score_question_error)

lemma score_questions_returns:
  "\<forall>q \<in> set qs. \<forall>e. check_answer q (answer_for ans q) \<noteq> Inl e \<Longrightarrow> \<exists>st'. score_questions ans qs st = Inr st'"
  using score_questions_error by (metis sum.exhaust_sel sumE)

lemma score_questions_earned:
  "score_questions ans qs st = Inr st' \<Longrightarrow>
     earned_points st' = earned_points st + total_points (filter (answered_correctly ans) qs)"
  by (induction qs arbitrary: st) (auto split: sum.splits simp: total_points_def score_question_result)

lemma score_questions_total_keys:
  "score_questions ans qs st = Inr st' \<Longrightarrow>
     fst ` set (skill_total st') = fst ` set (skill_total st) \<union> skill_of ` set qs"
  by (induction qs arbitrary: st) (auto split: sum.splits simp: score_question_result keys_dict_set)

lemma score_questions_total_distinct:
  "score_questions ans qs st = Inr st' \<Longrightarrow> distinct (map fst (skill_total st)) \<Longrightarrow>
     distinct (map fst (skill_total st'))"
  by (induction qs arbitrary: st) (auto split: sum.splits simp: score_question_result distinct_dict_set)

lemma score_questions_total_value:
  "score_questions ans qs st = Inr st' \<Longrightarrow>
     dict_get (skill_total st') k 0 =
       dict_get (skill_total st) k 0 + total_points (filter (\<lambda>q. skill_of q = k) qs)"
  by (induction qs arbitrary: st)
     (auto split: sum.splits simp: score_question_result dict_get_dict_set total_points_def)

lemma score_questions_correct_value:
  "score_questions ans qs st = Inr st' \<Longrightarrow>
     dict_get (skill_correct st') k 0 =
       dict_get (skill_correct st) k 0 +
       total_points (filter (\<lambda>q. skill_of q = k \<and> answered_correctly ans q) qs)"
  by (induction qs arbitrary: st)
     (auto split: sum.splits simp: score_question_result dict_get_dict_set total_points_def)

section \<open>Facts about the percentages\<close>

lemma abs_diff_triangle: "\<bar>a - c\<bar> \<le> \<bar>a - b\<bar> + \<bar>b - c\<bar>" for a b c :: rat
  by linarith

lemma powi_1024_ge: "(2::rat) powi (- 45) < 2 powi 1024" "(1::rat) < 2 powi 1024" "(100::rat) < 2 powi 1024"
  by simp_all

lemma fl_unit_interval:
  assumes "0 \<le> x" and "x \<le> 1"
  shows "0 \<le> fl x" and "fl x \<le> 1" and "\<bar>fl x - x\<bar> \<le> 2 powi (- 53)"
proof -
  show "0 \<le> fl x" using assms(1) by (rule fl_nonneg)
  show "fl x \<le> 1" "\<bar>fl x - x\<bar> \<le> 2 powi (- 53)"
  proof -
    have "fl x \<le> 1 \<and> \<bar>fl x - x\<bar> \<le> 2 powi (- 53)"
    proof (cases "x = 0")
      case True
      then show ?thesis by (simp add: fl_zero)
    next
      case False
      with assms have pos: "0 < x" by simp
      have "x < 2 powi 1" using assms(2) by simp
      from ulp_exponent_less[OF pos this] have u: "ulp_exponent x \<le> - 52" by simp
      have "fl x \<le> of_int 1 * 2 powi 0"
        using assms(2) u by (intro fl_le_grid[OF pos]) simp_all
      moreover have "(2::rat) powi ulp_exponent x / 2 \<le> 2 powi (- 52) / 2"
        using two_powi_mono[OF u] by simp
      then have "\<bar>fl x - x\<bar> \<le> 2 powi (- 53)"
        using fl_error[OF pos] by simp
      ultimately show ?thesis by simp
    qed
    then show "fl x \<le> 1" "\<bar>fl x - x\<bar> \<le> 2 powi (- 53)" by simp_all
  qed
qed

lemma fl_up_to_100:
  assumes "0 \<le> y" and "y \<le> 100"
  shows "0 \<le> fl y" and "fl y \<le> 100" and "\<bar>fl y - y\<bar> \<le> 2 powi (- 47)"
proof -
  show "0 \<le> fl y" using assms(1) by (rule fl_nonneg)
  have "fl y \<le> 100 \<and> \<bar>fl y - y\<bar> \<le> 2 powi (- 47)"
  proof (cases "y = 0")
    case True
    then show ?thesis by (simp add: fl_zero)
  next
    case False
    with assms have pos: "0 < y" by simp
    have "y < 2 powi 7" using assms(2) by simp
    from ulp_exponent_less[OF pos this] have u: "ulp_exponent y \<le> - 46" by simp
    have "fl y \<le> of_int 100 * 2 powi 0"
      using assms(2) u by (intro fl_le_grid[OF pos]) simp_all
    moreover have "(2::rat) powi ulp_exponent y / 2 \<le> 2 powi (- 46) / 2"
      using two_powi_mono[OF u] by simp
    then have "\<bar>fl y - y\<bar> \<le> 2 powi (- 47)"
      using fl_error[OF pos] by simp
    ultimately show ?thesis by simp
  qed
  then show "fl y \<le> 100" "\<bar>fl y - y\<bar> \<le> 2 powi (- 47)" by simp_all
qed

text \<open>
  For \<open>a \<le> b\<close> and \<open>b > 0\<close>, \<^verbatim>\<open>a / b * 100\<close> raises nothing and gives a double between 0
  and 100 that differs from the exact percentage by less than \<open>2 powi (- 45)\<close>.
\<close>

lemma percent_result:
  assumes "a \<le> b" and "0 < b"
  shows "percent a b = Inr (fl (fl (of_nat a / of_nat b) * 100))"
    and "0 \<le> fl (fl (of_nat a / of_nat b) * 100)"
    and "fl (fl (of_nat a / of_nat b) * 100) \<le> 100"
    and "\<bar>fl (fl (of_nat a / of_nat b) * 100) - of_nat a / of_nat b * 100\<bar> \<le> 2 powi (- 45)"
proof -
  define x :: rat where "x = of_nat a / of_nat b"
  have x0: "0 \<le> x" and x1: "x \<le> 1"
    unfolding x_def using assms by (simp_all add: divide_le_eq)
  note q = fl_unit_interval[OF x0 x1]
  have "\<not> too_large x"
    unfolding too_large_def using q(1,2) powi_1024_ge(2) by (simp add: not_le)
  then show "percent a b = Inr (fl (fl (of_nat a / of_nat b) * 100))"
    unfolding percent_def int_truediv_def x_def using assms(2) by simp
  have y0: "0 \<le> fl x * 100" and y1: "fl x * 100 \<le> 100" using q(1,2) by simp_all
  note s = fl_up_to_100[OF y0 y1]
  show "0 \<le> fl (fl (of_nat a / of_nat b) * 100)" using s(1) unfolding x_def .
  show "fl (fl (of_nat a / of_nat b) * 100) \<le> 100" using s(2) unfolding x_def .
  have "\<bar>fl x * 100 - x * 100\<bar> = \<bar>(fl x - x) * 100\<bar>"
    by (simp only: left_diff_distrib)
  also have "\<dots> = \<bar>fl x - x\<bar> * 100"
    by (simp only: abs_mult abs_numeral)
  finally have "\<bar>fl x * 100 - x * 100\<bar> = \<bar>fl x - x\<bar> * 100" .
  moreover have "\<bar>fl (fl x * 100) - x * 100\<bar>
                   \<le> \<bar>fl (fl x * 100) - fl x * 100\<bar> + \<bar>fl x * 100 - x * 100\<bar>"
    by (rule abs_diff_triangle)
  ultimately have "\<bar>fl (fl x * 100) - x * 100\<bar>
                     \<le> \<bar>fl (fl x * 100) - fl x * 100\<bar> + \<bar>fl x - x\<bar> * 100"
    by simp
  also have "\<dots> \<le> 2 powi (- 47) + 2 powi (- 53) * 100"
    using s(3) q(3) by (intro add_mono mult_right_mono) simp_all
  also have "\<dots> \<le> 2 powi (- 45)" by simp
  finally show "\<bar>fl (fl (of_nat a / of_nat b) * 100) - of_nat a / of_nat b * 100\<bar> \<le> 2 powi (- 45)"
    unfolding x_def .
qed

lemma skill_score_loop_fold:
  assumes "\<forall>(k, t) \<in> set items. dict_get sc k 0 \<le> t"
  shows "skill_score_loop items sc ss =
           Inr (fold (\<lambda>(k, t). dict_set k (percentage (dict_get sc k 0) t)) items ss)"
  using assms
proof (induction items arbitrary: ss)
  case Nil
  show ?case by simp
next
  case (Cons p items)
  obtain k t where p: "p = (k, t)" by (cases p)
  from Cons.prems p have le: "dict_get sc k 0 \<le> t"
    and rest: "\<forall>(k, t) \<in> set items. dict_get sc k 0 \<le> t" by auto
  have "skill_score_loop (p # items) sc ss =
          skill_score_loop items sc (dict_set k (percentage (dict_get sc k 0) t) ss)"
  proof (cases "0 < t")
    case True
    from percent_result(1)[OF le True] show ?thesis
      by (simp add: p percentage_def True)
  next
    case False
    then show ?thesis by (simp add: p percentage_def)
  qed
  then show ?case by (simp add: Cons.IH[OF rest] p)
qed

lemma fold_dict_set_keys:
  "fst ` set (fold (\<lambda>(k, t). dict_set k (f k t)) items ss) = fst ` set ss \<union> fst ` set items"
proof (induction items arbitrary: ss)
  case Nil
  show ?case by simp
next
  case (Cons p items)
  have "fst ` set (fold (\<lambda>(k, t). dict_set k (f k t)) (p # items) ss) =
          insert (fst p) (fst ` set ss) \<union> fst ` set items"
    by (simp add: Cons.IH split_beta keys_dict_set)
  then show ?case by simp
qed

lemma fold_dict_set_distinct:
  "distinct (map fst ss) \<Longrightarrow> distinct (map fst (fold (\<lambda>(k, t). dict_set k (f k t)) items ss))"
  by (induction items arbitrary: ss) (auto simp: distinct_dict_set)

lemma fold_dict_set_value:
  "distinct (map fst items) \<Longrightarrow>
     map_of (fold (\<lambda>(k, t). dict_set k (f k t)) items ss) k =
       (case map_of items k of None \<Rightarrow> map_of ss k | Some t \<Rightarrow> Some (f k t))"
proof (induction items arbitrary: ss)
  case Nil
  then show ?case by simp
next
  case (Cons p items)
  obtain k' t' where p: "p = (k', t')" by (cases p)
  from Cons.prems p have notin: "k' \<notin> fst ` set items" and d: "distinct (map fst items)" by auto
  from notin have none: "map_of items k' = None" by (simp add: map_of_eq_None_iff)
  show ?case
    using Cons.IH[OF d, of "dict_set k' (f k' t') ss"] none
    by (auto simp: p map_of_dict_set split: option.splits)
qed

text \<open>
  \<^verbatim>\<open>round(x, 2)\<close> is the double next to \<open>n / 100\<close>, where \<open>n\<close> is the integer nearest to
  \<open>100 x\<close>, the even one of two nearest.
\<close>

lemma py_round2_spec:
  "\<exists>n::int. py_round2 x = fl (of_int n / 100) \<and> \<bar>of_int n - x * 100\<bar> \<le> 1 / 2
      \<and> (\<bar>of_int n - x * 100\<bar> = 1 / 2 \<longrightarrow> even n)"
  unfolding py_round2_def
  using round_half_even_error[of "x * 100"] round_half_even_tie[of "x * 100"] by blast

lemma map_of_dict_get: "k \<in> fst ` set d \<Longrightarrow> map_of d k = Some (dict_get d k dflt)"
  unfolding dict_get_def by (cases "map_of d k") (auto simp: map_of_eq_None_iff)

lemma total_points_filter_le: "total_points (filter P qs) \<le> total_points qs"
  unfolding total_points_def by (induction qs) auto

lemma total_points_filter_mono:
  "total_points (filter (\<lambda>q. P q \<and> Q q) qs) \<le> total_points (filter P qs)"
  unfolding total_points_def by (induction qs) auto

text \<open>
  After the first loop, no skill has more correct points than points in total, two
  skills never share a key, and the earned points do not exceed the total.
\<close>

lemma scored_state:
  assumes "score_questions ans qs initial_state = Inr st"
  shows "earned_points st = total_points (filter (answered_correctly ans) qs)"
    and "earned_points st \<le> total_points qs"
    and "fst ` set (skill_total st) = skill_of ` set qs"
    and "distinct (map fst (skill_total st))"
    and "dict_get (skill_total st) k 0 = total_points (filter (\<lambda>q. skill_of q = k) qs)"
    and "dict_get (skill_correct st) k 0 =
           total_points (filter (\<lambda>q. skill_of q = k \<and> answered_correctly ans q) qs)"
    and "\<forall>(k, t) \<in> set (skill_total st). dict_get (skill_correct st) k 0 \<le> t"
proof -
  show e: "earned_points st = total_points (filter (answered_correctly ans) qs)"
    using score_questions_earned[OF assms] by (simp add: initial_state_def)
  show "earned_points st \<le> total_points qs"
    unfolding e by (rule total_points_filter_le)
  show "fst ` set (skill_total st) = skill_of ` set qs"
    using score_questions_total_keys[OF assms] by (simp add: initial_state_def)
  show d: "distinct (map fst (skill_total st))"
    using score_questions_total_distinct[OF assms] by (simp add: initial_state_def)
  show t: "dict_get (skill_total st) k 0 = total_points (filter (\<lambda>q. skill_of q = k) qs)" for k
    using score_questions_total_value[OF assms, of k] by (simp add: initial_state_def dict_get_def)
  show c: "dict_get (skill_correct st) k 0 =
           total_points (filter (\<lambda>q. skill_of q = k \<and> answered_correctly ans q) qs)" for k
    using score_questions_correct_value[OF assms, of k]
    by (simp add: initial_state_def dict_get_def)
  show "\<forall>(k, t) \<in> set (skill_total st). dict_get (skill_correct st) k 0 \<le> t"
  proof (clarify)
    fix k t assume kt: "(k, t) \<in> set (skill_total st)"
    with d have "map_of (skill_total st) k = Some t" by (simp add: map_of_is_SomeI)
    then have "t = dict_get (skill_total st) k 0" by (simp add: dict_get_def)
    then show "dict_get (skill_correct st) k 0 \<le> t"
      unfolding c t by (simp add: total_points_filter_mono)
  qed
qed

text \<open>
  What \<^verbatim>\<open>calculate_score\<close> does: an error of the first loop leaves the method; otherwise
  the attempt below reaches \<^verbatim>\<open>self.save()\<close>.
\<close>

definition scored :: "question list \<Rightarrow> nat \<Rightarrow> attempt \<Rightarrow> score_state \<Rightarrow> attempt" where
  "scored qs p self st =
     self\<lparr>score := (if 0 < total_points qs
                     then fl (fl (of_nat (earned_points st) / of_nat (total_points qs)) * 100)
                     else 0),
          passed := (of_nat p \<le> (if 0 < total_points qs
                     then fl (fl (of_nat (earned_points st) / of_nat (total_points qs)) * 100)
                     else 0)),
          skill_scores := fold (\<lambda>(k, t). dict_set k (percentage (dict_get (skill_correct st) k 0) t))
                            (skill_total st) (skill_scores self)\<rparr>"

lemma calculate_score_raises:
  "score_questions (answers self) qs initial_state = Inl e \<Longrightarrow>
     calculate_score save qs p self = Inl e"
  unfolding calculate_score_def by simp

lemma calculate_score_reaches_save:
  assumes "score_questions (answers self) qs initial_state = Inr st"
  shows "calculate_score save qs p self =
           (if save (scored qs p self st) then Inr (scored qs p self st) else Inl SaveFailed)"
proof -
  note s = scored_state[OF assms]
  have o: "overall_score (earned_points st) (total_points qs) =
             Inr (if 0 < total_points qs
                  then fl (fl (of_nat (earned_points st) / of_nat (total_points qs)) * 100)
                  else 0)"
    unfolding overall_score_def using percent_result(1)[OF s(2)] by simp
  show ?thesis
    unfolding calculate_score_def scored_def
    by (simp add: assms o skill_score_loop_fold[OF s(7)] Let_def)
qed

lemma calculate_score_cases:
  obtains (raised) e where "score_questions (answers self) qs initial_state = Inl e"
      and "calculate_score save qs p self = Inl e"
    | (saved) st where "score_questions (answers self) qs initial_state = Inr st"
      and "calculate_score save qs p self =
             (if save (scored qs p self st) then Inr (scored qs p self st) else Inl SaveFailed)"
proof (cases "score_questions (answers self) qs initial_state")
  case (Inl e)
  show ?thesis by (rule raised[OF Inl calculate_score_raises[OF Inl]])
next
  case (Inr st)
  show ?thesis by (rule saved[OF Inr calculate_score_reaches_save[OF Inr]])
qed

lemma calculate_score_returned:
  assumes "calculate_score save qs p self = Inr att'"
  obtains st where "score_questions (answers self) qs initial_state = Inr st"
    and "att' = scored qs p self st"
proof (rule calculate_score_cases[of self qs save p])
  fix e assume "calculate_score save qs p self = Inl e"
  with assms show ?thesis by simp
next
  fix st assume st: "score_questions (answers self) qs initial_state = Inr st"
    and "calculate_score save qs p self =
           (if save (scored qs p self st) then Inr (scored qs p self st) else Inl SaveFailed)"
  with assms have "att' = scored qs p self st" by (simp split: if_splits)
  with st show ?thesis by (rule that)
qed


section \<open>Properties of \<^verbatim>\<open>calculate_score\<close>\<close>



text \<open>
  C1. \<^verbatim>\<open>calculate_score\<close> reads the flag of the selected option, so on a question with
  two flagged options the second one earns the points too, although the first flagged
  option is the correct answer for \<^verbatim>\<open>get_correct_answer\<close> and for the feedback of the
  same attempt, which reports this answer as incorrect.
\<close>

theorem second_flagged_option_earns_points:
  "correct_idx_from 0 (options two_flagged) = Some 0
     \<and> get_correct_answer two_flagged = Some ''a''
     \<and> feedback_is_correct two_flagged (PInt 1) = Inr False
     \<and> check_answer two_flagged (PInt 1) = Inr True
     \<and> calculate_score save_json [two_flagged] 70 (new_attempt [(''7'', PInt 1)]) =
         Inr \<lparr>answers = [(''7'', PInt 1)], score = 100, passed = True,
              skill_scores = [(''General'', 100)]\<rparr>"
  by code_simp


lemma plain_answer_py_int:
  "plain_answer v \<Longrightarrow> py_int v \<noteq> Inl TypeError \<or> v = PNone"
  "plain_answer v \<Longrightarrow> py_int v \<noteq> Inl OverflowError"
  by (cases v; auto dest: int_of_str_error)+

lemma answer_for_cases:
  "answer_for ans q = PNone \<or> answer_for ans q \<in> snd ` set ans"
  unfolding answer_for_def dict_get_def
  by (auto split: option.splits dest!: map_of_SomeD intro: rev_image_eqI)

lemma plain_answers_no_error:
  assumes "\<forall>v \<in> snd ` set ans. plain_answer v"
  shows "check_answer q (answer_for ans q) \<noteq> Inl e"
proof
  assume err: "check_answer q (answer_for ans q) = Inl e"
  then have ne: "answer_for ans q \<noteq> PNone"
    and pi: "py_int (answer_for ans q) = Inl e"
    and e: "e = TypeError \<or> e = OverflowError"
    by (simp_all add: check_answer_error)
  from ne answer_for_cases[of ans q] assms have "plain_answer (answer_for ans q)" by auto
  with plain_answer_py_int[of "answer_for ans q"] ne pi e show False by auto
qed

lemma plain_answers_reach_save:
  assumes "\<forall>v \<in> snd ` set (answers self). plain_answer v"
  obtains st where "score_questions (answers self) qs initial_state = Inr st"
    and "calculate_score save qs p self =
           (if save (scored qs p self st) then Inr (scored qs p self st) else Inl SaveFailed)"
proof -
  have "\<forall>q \<in> set qs. \<forall>e. check_answer q (answer_for (answers self) q) \<noteq> Inl e"
    using plain_answers_no_error[OF assms] by blast
  then obtain st where st: "score_questions (answers self) qs initial_state = Inr st"
    using score_questions_returns by blast
  from st calculate_score_reaches_save[OF st] show ?thesis by (rule that)
qed

text \<open>
  C2 (as amended). When every submitted value is \<^verbatim>\<open>null\<close>, a boolean, an integer, a
  finite float or a string, the scoring raises nothing: \<^verbatim>\<open>calculate_score\<close> reaches its
  \<^verbatim>\<open>self.save()\<close> and returns the attempt unless \<^verbatim>\<open>save()\<close> raises. And for any
  submission, a question whose answer is missing or \<^verbatim>\<open>null\<close>, is rejected by
  \<^verbatim>\<open>int()\<close> with \<^verbatim>\<open>ValueError\<close>, or gives an index below \<open>- len(options)\<close> or
  from \<open>len(options)\<close> on, only adds its points to the total of its skill: the earned
  points and the correct counts stay as they were.
\<close>

theorem malformed_answers_count_as_incorrect:
  assumes "\<forall>v \<in> snd ` set (answers self). plain_answer v"
  shows "(\<exists>att'. calculate_score save questions p self =
                  (if save att' then Inr att' else Inl SaveFailed))
       \<and> (\<forall>q st.
            (answer_for (answers self) q = PNone
             \<or> py_int (answer_for (answers self) q) = Inl ValueError
             \<or> (\<exists>i. py_int (answer_for (answers self) q) = Inr i
                    \<and> (i < - int (length (options q)) \<or> int (length (options q)) \<le> i)))
            \<longrightarrow> score_question (answers self) q st =
                  Inr (st\<lparr>skill_total :=
                            dict_set (skill_of q)
                              (dict_get (skill_total st) (skill_of q) 0 + points q)
                              (skill_total st)\<rparr>))"
proof -
  have ret: "\<exists>att'. calculate_score save questions p self =
                  (if save att' then Inr att' else Inl SaveFailed)"
    using plain_answers_reach_save[OF assms, of questions save p] by metis
  have "score_question (answers self) q st =
          Inr (st\<lparr>skill_total :=
                    dict_set (skill_of q) (dict_get (skill_total st) (skill_of q) 0 + points q)
                      (skill_total st)\<rparr>)"
    if bad: "answer_for (answers self) q = PNone
             \<or> py_int (answer_for (answers self) q) = Inl ValueError
             \<or> (\<exists>i. py_int (answer_for (answers self) q) = Inr i
                    \<and> (i < - int (length (options q)) \<or> int (length (options q)) \<le> i))"
    for q st
  proof -
    have "check_answer q (answer_for (answers self) q) = Inr False"
      using bad unfolding check_answer_def selected_option_correct_def
      by (auto simp: py_getitem_out_of_range)
    then show ?thesis unfolding score_question_def by (simp add: Let_def)
  qed
  with ret show ?thesis by blast
qed

theorem malformed_answers_count_as_incorrect_witness:
  "(\<exists>att'. calculate_score save_json [Q1, Q2, Q3] 70
             (new_attempt [(''1'', PStr ''first''), (''2'', PInt 5)]) = Inr att')
     \<and> score_question [(''1'', PStr ''first''), (''2'', PInt 5)] Q1 initial_state =
         Inr \<lparr>earned_points = 0, skill_correct = [], skill_total = [(''math'', 1)]\<rparr>
     \<and> score_question [(''1'', PStr ''first''), (''2'', PInt 5)] Q2 initial_state =
         Inr \<lparr>earned_points = 0, skill_correct = [], skill_total = [(''math'', 1)]\<rparr>
     \<and> score_question [(''1'', PStr ''first''), (''2'', PInt 5)] Q3 initial_state =
         Inr \<lparr>earned_points = 0, skill_correct = [], skill_total = [(''logic'', 2)]\<rparr>"
proof -
  let ?ans = "[(''1'', PStr ''first''), (''2'', PInt 5)]"
  have h: "\<forall>v \<in> snd ` set (answers (new_attempt ?ans)). plain_answer v"
    by (simp add: new_attempt_def)
  have a1: "py_int (answer_for (answers (new_attempt ?ans)) Q1) = Inl ValueError" by code_simp
  have a2: "py_int (answer_for (answers (new_attempt ?ans)) Q2) = Inr 5
            \<and> int (length (options Q2)) \<le> 5" by code_simp
  have a3: "answer_for (answers (new_attempt ?ans)) Q3 = PNone" by code_simp
  have an: "answers (new_attempt ?ans) = ?ans" by (simp add: new_attempt_def)
  have sv: "save_json att'" if "answers att' = ?ans" for att'
    using that by (simp add: save_json_def)
  note main = malformed_answers_count_as_incorrect[OF h, of save_json "[Q1, Q2, Q3]" 70]
  from main obtain att' where r0: "calculate_score save_json [Q1, Q2, Q3] 70 (new_attempt ?ans) =
      (if save_json att' then Inr att' else Inl SaveFailed)"
    by blast
  have "answers att' = ?ans"
  proof (rule plain_answers_reach_save[OF h, of "[Q1, Q2, Q3]" save_json 70])
    fix st
    assume "calculate_score save_json [Q1, Q2, Q3] 70 (new_attempt ?ans) =
           (if save_json (scored [Q1, Q2, Q3] 70 (new_attempt ?ans) st)
            then Inr (scored [Q1, Q2, Q3] 70 (new_attempt ?ans) st) else Inl SaveFailed)"
    moreover have "save_json (scored [Q1, Q2, Q3] 70 (new_attempt ?ans) st)"
      by (intro sv) (simp add: scored_def new_attempt_def)
    ultimately have "att' = scored [Q1, Q2, Q3] 70 (new_attempt ?ans) st"
      using r0 by (simp split: if_splits)
    then show ?thesis by (simp add: scored_def new_attempt_def)
  qed
  with r0 sv have r: "\<exists>att'. calculate_score save_json [Q1, Q2, Q3] 70 (new_attempt ?ans) = Inr att'"
    by simp
  from main a1 have s1: "score_question (answers (new_attempt ?ans)) Q1 initial_state =
      Inr (initial_state\<lparr>skill_total := dict_set (skill_of Q1)
             (dict_get (skill_total initial_state) (skill_of Q1) 0 + points Q1)
             (skill_total initial_state)\<rparr>)" by blast
  from main a2 have s2: "score_question (answers (new_attempt ?ans)) Q2 initial_state =
      Inr (initial_state\<lparr>skill_total := dict_set (skill_of Q2)
             (dict_get (skill_total initial_state) (skill_of Q2) 0 + points Q2)
             (skill_total initial_state)\<rparr>)" by blast
  from main a3 have s3: "score_question (answers (new_attempt ?ans)) Q3 initial_state =
      Inr (initial_state\<lparr>skill_total := dict_set (skill_of Q3)
             (dict_get (skill_total initial_state) (skill_of Q3) 0 + points Q3)
             (skill_total initial_state)\<rparr>)" by blast
  show ?thesis
    using r s1 s2 s3
    by (simp add: an initial_state_def dict_get_def skill_of_def Q1_def Q2_def Q3_def)
qed

text \<open>
  The claim as stated fails: a list as answer value makes \<^verbatim>\<open>int()\<close> raise
  \<^verbatim>\<open>TypeError\<close>, which the \<^verbatim>\<open>except\<close> clause does not catch.
\<close>

theorem list_answer_raises_type_error:
  "calculate_score save_json [Q1] 70 (new_attempt [(''1'', PList [PInt 0])]) = Inl TypeError"
  by code_simp

text \<open>
  A NaN among the answers is swallowed by the scoring (\<^verbatim>\<open>int()\<close> raises
  \<^verbatim>\<open>ValueError\<close>), but a \<^verbatim>\<open>save()\<close> that insists on valid JSON then raises.
\<close>

lemma nan_answer_fails_at_save:
  "check_answer Q1 PFloatNaN = Inr False
   \<and> calculate_score save_json [Q1] 70 (new_attempt [(''1'', PFloatNaN)]) = Inl SaveFailed"
  by code_simp

text \<open>
  C4. The points earned in the first loop never exceed the sum of the points of all
  questions, and a score that \<^verbatim>\<open>calculate_score\<close> returns lies between 0 and 100.
\<close>

theorem earned_points_bounded:
  "(\<forall>st. score_questions (answers self) questions initial_state = Inr st
          \<longrightarrow> earned_points st \<le> total_points questions)
   \<and> (\<forall>att'. calculate_score save questions p self = Inr att'
          \<longrightarrow> 0 \<le> score att' \<and> score att' \<le> 100)"
proof -
  have le: "earned_points st \<le> total_points questions"
    if "score_questions (answers self) questions initial_state = Inr st" for st
    using scored_state(2)[OF that] .
  have "0 \<le> score att' \<and> score att' \<le> 100"
    if "calculate_score save questions p self = Inr att'" for att'
  proof (rule calculate_score_returned[OF that])
    fix st
    assume st: "score_questions (answers self) questions initial_state = Inr st"
      and att': "att' = scored questions p self st"
    show ?thesis
    proof (cases "0 < total_points questions")
      case True
      from percent_result(2,3)[OF le[OF st] True] True show ?thesis
        unfolding att' scored_def by simp
    next
      case False
      then show ?thesis unfolding att' scored_def by simp
    qed
  qed
  with le show ?thesis by blast
qed

theorem earned_points_bounded_witness:
  "earned_points \<lparr>earned_points = 3, skill_correct = [(''math'', 1), (''logic'', 2)],
                  skill_total = [(''math'', 2), (''logic'', 2)]\<rparr> \<le> total_points [Q1, Q2, Q3]
   \<and> (0::rat) \<le> 75 \<and> (75::rat) \<le> 100"
proof -
  let ?ans = "[(''1'', PInt 0), (''2'', PInt 0), (''3'', PInt 0)]"
  let ?self = "new_attempt ?ans"
  have h1: "score_questions (answers ?self) [Q1, Q2, Q3] initial_state =
              Inr \<lparr>earned_points = 3, skill_correct = [(''math'', 1), (''logic'', 2)],
                   skill_total = [(''math'', 2), (''logic'', 2)]\<rparr>"
    by code_simp
  have h2: "calculate_score save_json [Q1, Q2, Q3] 70 ?self =
              Inr \<lparr>answers = ?ans, score = 75, passed = True,
                   skill_scores = [(''math'', 50), (''logic'', 100)]\<rparr>"
    by code_simp
  from earned_points_bounded[of ?self "[Q1, Q2, Q3]" save_json 70] h1 h2
  have "earned_points \<lparr>earned_points = 3, skill_correct = [(''math'', 1), (''logic'', 2)],
                  skill_total = [(''math'', 2), (''logic'', 2)]\<rparr> \<le> total_points [Q1, Q2, Q3]"
    and "0 \<le> score \<lparr>answers = ?ans, score = 75, passed = True,
                   skill_scores = [(''math'', 50), (''logic'', 100)]\<rparr>
         \<and> score \<lparr>answers = ?ans, score = 75, passed = True,
                   skill_scores = [(''math'', 50), (''logic'', 100)]\<rparr> \<le> 100"
    by blast+
  then show ?thesis by simp
qed

text \<open>
  C5 (as amended). The keys of \<^verbatim>\<open>skill_scores\<close> after \<^verbatim>\<open>calculate_score\<close> are the
  keys the attempt already held (none for a new attempt) and the labels of the questions,
  where a category that is absent or empty counts as \<open>''General''\<close>; no key is repeated.
\<close>

theorem skill_scores_keys:
  assumes "calculate_score save questions p self = Inr att'"
  shows "fst ` set (skill_scores att') = fst ` set (skill_scores self) \<union> skill_of ` set questions
       \<and> (distinct (map fst (skill_scores self)) \<longrightarrow> distinct (map fst (skill_scores att')))
       \<and> skill_of ` set questions =
           (\<lambda>q. if skill_category q = None \<or> skill_category q = Some [] then ''General''
                else the (skill_category q)) ` set questions"
proof (rule calculate_score_returned[OF assms])
  fix st
  assume st: "score_questions (answers self) questions initial_state = Inr st"
    and att': "att' = scored questions p self st"
  have ss: "skill_scores att' =
           fold (\<lambda>(k, t). dict_set k (percentage (dict_get (skill_correct st) k 0) t))
             (skill_total st) (skill_scores self)"
    unfolding att' scored_def by simp
  have keys: "fst ` set (skill_total st) = skill_of ` set questions"
    using scored_state(3)[OF st] .
  have 1: "fst ` set (skill_scores att') = fst ` set (skill_scores self) \<union> skill_of ` set questions"
    unfolding ss fold_dict_set_keys keys ..
  have 2: "distinct (map fst (skill_scores self)) \<longrightarrow> distinct (map fst (skill_scores att'))"
    unfolding ss by (simp add: fold_dict_set_distinct)
  have "skill_of q = (if skill_category q = None \<or> skill_category q = Some [] then ''General''
                else the (skill_category q))" for q
    unfolding skill_of_def by (auto split: option.splits)
  then have 3: "skill_of ` set questions =
           (\<lambda>q. if skill_category q = None \<or> skill_category q = Some [] then ''General''
                else the (skill_category q)) ` set questions"
    by presburger
  from 1 2 3 show ?thesis by blast
qed

theorem skill_scores_keys_witness:
  "fst ` set [(''math'', 50::rat), (''logic'', 100)] = skill_of ` set [Q1, Q2, Q3]
   \<and> distinct (map fst [(''math'', 50::rat), (''logic'', 100)])"
proof -
  let ?ans = "[(''1'', PInt 0), (''2'', PInt 0), (''3'', PInt 0)]"
  have h: "calculate_score save_json [Q1, Q2, Q3] 70 (new_attempt ?ans) =
              Inr \<lparr>answers = ?ans, score = 75, passed = True,
                   skill_scores = [(''math'', 50), (''logic'', 100)]\<rparr>"
    by code_simp
  from skill_scores_keys[OF h] show ?thesis by (simp add: new_attempt_def)
qed

text \<open>
  The claim as stated fails: a question whose category is the empty string is counted
  under \<open>''General''\<close>, and its own label never becomes a key.
\<close>

theorem blank_category_scored_as_General:
  "calculate_score save_json [blank_skill] 70 (new_attempt []) =
     Inr \<lparr>answers = [], score = 0, passed = False, skill_scores = [(''General'', 0)]\<rparr>
   \<and> label_as_specified ` set [blank_skill] = {''''}
   \<and> fst ` set [(''General'', 0::rat)] \<noteq> label_as_specified ` set [blank_skill]"
  by code_simp


lemma correct_idx_from_Some:
  "correct_idx_from n opts = Some idx \<Longrightarrow>
     n \<le> idx \<and> idx - n < length opts \<and> isCorrect (opts ! (idx - n))"
proof (induction opts arbitrary: n)
  case Nil
  then show ?case by simp
next
  case (Cons c opts)
  show ?case
  proof (cases "isCorrect c")
    case True
    with Cons.prems show ?thesis by simp
  next
    case False
    with Cons.prems have "correct_idx_from (Suc n) opts = Some idx" by simp
    from Cons.IH[OF this] have le: "Suc n \<le> idx" and lt: "idx - Suc n < length opts"
      and c: "isCorrect (opts ! (idx - Suc n))" by simp_all
    from le have "idx - n = Suc (idx - Suc n)" by simp
    with le lt c show ?thesis by simp
  qed
qed

lemma first_flagged_answer_is_correct:
  assumes "correct_idx_from 0 (options q) = Some idx"
  shows "check_answer q (PInt (int idx)) = Inr True"
proof -
  from correct_idx_from_Some[OF assms] have "idx < length (options q)" "isCorrect (options q ! idx)"
    by simp_all
  then show ?thesis
    unfolding check_answer_def selected_option_correct_def py_getitem_def by simp
qed

lemma all_correct_earns_total:
  assumes "\<forall>q \<in> set qs. answered_correctly ans q"
  shows "total_points (filter (answered_correctly ans) qs) = total_points qs"
proof -
  from assms have "filter (answered_correctly ans) qs = qs" by simp
  then show ?thesis by simp
qed

lemma fl_one: "fl 1 = 1"
  by code_simp

lemma fl_hundred: "fl 100 = 100"
  by code_simp

text \<open>
  C7 (as amended). If the questions carry a positive total of points, the passing score
  is at most 100 and the submission gives, for every question, the index of its first
  option flagged correct, then \<^verbatim>\<open>calculate_score\<close> reaches \<^verbatim>\<open>self.save()\<close> with the
  score 100 and the attempt passed, and returns it unless \<^verbatim>\<open>save()\<close> raises.
\<close>

theorem full_credit:
  assumes "0 < total_points questions" and "p \<le> 100"
    and "\<forall>q \<in> set questions. \<exists>idx. correct_idx_from 0 (options q) = Some idx
           \<and> answer_for (answers self) q = PInt (int idx)"
  shows "\<exists>att'. score att' = 100 \<and> passed att'
           \<and> calculate_score save questions p self =
               (if save att' then Inr att' else Inl SaveFailed)"
proof -
  have ok: "\<forall>q \<in> set questions. answered_correctly (answers self) q"
    using assms(3) first_flagged_answer_is_correct unfolding answered_correctly_def by metis
  then have "\<forall>q \<in> set questions. \<forall>e. check_answer q (answer_for (answers self) q) \<noteq> Inl e"
    unfolding answered_correctly_def by simp
  then obtain st where st: "score_questions (answers self) questions initial_state = Inr st"
    using score_questions_returns by blast
  have "earned_points st = total_points questions"
    using scored_state(1)[OF st] all_correct_earns_total[OF ok] by simp
  then have sc: "score (scored questions p self st) = 100"
    unfolding scored_def using assms(1) by (simp add: fl_one fl_hundred)
  have "passed (scored questions p self st) = (of_nat p \<le> score (scored questions p self st))"
    unfolding scored_def by simp
  with sc assms(2) have "passed (scored questions p self st)" by simp
  with sc calculate_score_reaches_save[OF st, of save p] show ?thesis by blast
qed

theorem full_credit_witness:
  "\<exists>att'. score att' = 100 \<and> passed att'
        \<and> calculate_score save_json [Q1, Q2, Q3] 70
            (new_attempt [(''1'', PInt 0), (''2'', PInt 1), (''3'', PInt 0)]) =
            (if save_json att' then Inr att' else Inl SaveFailed)"
proof -
  let ?self = "new_attempt [(''1'', PInt 0), (''2'', PInt 1), (''3'', PInt 0)]"
  have h1: "0 < total_points [Q1, Q2, Q3]" by code_simp
  have h2: "(70::nat) \<le> 100" by simp
  have c1: "correct_idx_from 0 (options Q1) = Some 0
            \<and> answer_for (answers ?self) Q1 = PInt (int 0)" by code_simp
  have c2: "correct_idx_from 0 (options Q2) = Some 1
            \<and> answer_for (answers ?self) Q2 = PInt (int 1)" by code_simp
  have c3: "correct_idx_from 0 (options Q3) = Some 0
            \<and> answer_for (answers ?self) Q3 = PInt (int 0)" by code_simp
  have h3: "\<forall>q \<in> set [Q1, Q2, Q3]. \<exists>idx. correct_idx_from 0 (options q) = Some idx
              \<and> answer_for (answers ?self) q = PInt (int idx)"
    using c1 c2 c3 by auto
  from full_credit[OF h1 h2 h3] show ?thesis .
qed

lemma full_credit_stored:
  "calculate_score save_json [Q1, Q2, Q3] 70
     (new_attempt [(''1'', PInt 0), (''2'', PInt 1), (''3'', PInt 0)]) =
   Inr \<lparr>answers = [(''1'', PInt 0), (''2'', PInt 1), (''3'', PInt 0)], score = 100,
        passed = True, skill_scores = [(''math'', 100), (''logic'', 100)]\<rparr>"
  by code_simp

text \<open>
  The claim as stated fails without questions: nothing is answered wrongly, yet the score
  is 0 and a passing score of 70 is not reached.
\<close>

theorem no_questions_no_full_credit:
  "calculate_score save_json [] 70 (new_attempt []) =
     Inr \<lparr>answers = [], score = 0, passed = False, skill_scores = []\<rparr>"
  by code_simp

text \<open>
  C8 (as amended). \<^verbatim>\<open>calculate_score\<close> never raises \<^verbatim>\<open>ZeroDivisionError\<close>. When the
  points of the questions add up to 0, every score it returns is 0; and with no question
  at all, or with a submission of \<^verbatim>\<open>null\<close>, booleans, integers, finite floats and
  strings, the scoring raises nothing and \<^verbatim>\<open>self.save()\<close> is reached with the score 0.
\<close>

theorem zero_total_scores_zero:
  "calculate_score save questions p self \<noteq> Inl ZeroDivisionError
   \<and> calculate_score save [] p self =
       (if save (self\<lparr>score := 0, passed := (p = 0)\<rparr>)
        then Inr (self\<lparr>score := 0, passed := (p = 0)\<rparr>) else Inl SaveFailed)
   \<and> (total_points questions = 0 \<longrightarrow>
        (\<forall>att'. calculate_score save questions p self = Inr att' \<longrightarrow> score att' = 0)
        \<and> ((\<forall>v \<in> snd ` set (answers self). plain_answer v) \<longrightarrow>
             (\<exists>att'. score att' = 0
                \<and> calculate_score save questions p self =
                    (if save att' then Inr att' else Inl SaveFailed))))"
proof -
  have 1: "calculate_score save questions p self \<noteq> Inl ZeroDivisionError"
  proof (rule calculate_score_cases[of self questions save p])
    fix e
    assume e: "score_questions (answers self) questions initial_state = Inl e"
      and r: "calculate_score save questions p self = Inl e"
    from score_questions_error[OF e] have "e \<noteq> ZeroDivisionError"
      by (auto simp: check_answer_error)
    with r show ?thesis by simp
  next
    fix st
    assume "calculate_score save questions p self =
              (if save (scored questions p self st) then Inr (scored questions p self st)
               else Inl SaveFailed)"
    then show ?thesis by simp
  qed
  have 2: "calculate_score save [] p self =
       (if save (self\<lparr>score := 0, passed := (p = 0)\<rparr>)
        then Inr (self\<lparr>score := 0, passed := (p = 0)\<rparr>) else Inl SaveFailed)"
    by (simp add: calculate_score_def overall_score_def total_points_def initial_state_def)
  have 3: "score att' = 0"
    if "total_points questions = 0" "calculate_score save questions p self = Inr att'" for att'
    by (rule calculate_score_returned[OF that(2)]) (simp add: scored_def that(1))
  have 4: "\<exists>att'. score att' = 0
                \<and> calculate_score save questions p self =
                    (if save att' then Inr att' else Inl SaveFailed)"
    if z: "total_points questions = 0" and pl: "\<forall>v \<in> snd ` set (answers self). plain_answer v"
  proof (rule plain_answers_reach_save[OF pl, of questions save p])
    fix st
    assume "calculate_score save questions p self =
              (if save (scored questions p self st) then Inr (scored questions p self st)
               else Inl SaveFailed)"
    moreover have "score (scored questions p self st) = 0"
      by (simp add: scored_def z)
    ultimately show ?thesis by blast
  qed
  from 1 2 3 4 show ?thesis by blast
qed

theorem zero_total_scores_zero_witness:
  "\<exists>att'. score att' = 0
        \<and> calculate_score save_json [Q1\<lparr>points := 0\<rparr>] 70 (new_attempt [(''1'', PInt 0)]) =
            (if save_json att' then Inr att' else Inl SaveFailed)"
proof -
  let ?self = "new_attempt [(''1'', PInt 0)]"
  have h1: "total_points [Q1\<lparr>points := 0\<rparr>] = 0" by code_simp
  have h2: "\<forall>v \<in> snd ` set (answers ?self). plain_answer v" by (simp add: new_attempt_def)
  from zero_total_scores_zero[of save_json "[Q1\<lparr>points := 0\<rparr>]" 70 ?self] h1 h2
  show ?thesis by blast
qed

text \<open>
  The claim as stated fails: with a question worth no points the total is 0, and a list
  submitted as its answer still raises \<^verbatim>\<open>TypeError\<close> instead of giving the score 0.
\<close>

theorem zero_points_list_answer_raises:
  "total_points [Q1\<lparr>points := 0\<rparr>] = 0
   \<and> calculate_score save_json [Q1\<lparr>points := 0\<rparr>] 70 (new_attempt [(''1'', PList [])]) =
       Inl TypeError"
  by code_simp


text \<open>
  C3 (as amended). With a positive total of points, the score \<^verbatim>\<open>calculate_score\<close>
  returns is the double \<^verbatim>\<open>earned / total * 100\<close>: the quotient rounded to a double,
  multiplied by 100 and rounded to a double again. It differs from the exact percentage by
  less than \<open>2 powi (- 45)\<close> and is not rounded to two decimals. The percentage stored for
  a skill with a positive total is \<^verbatim>\<open>round(correct / total * 100, 2)\<close> of the same kind
  of double: the double next to \<open>n / 100\<close>, where \<open>n\<close> is the integer nearest to 100 times
  the double, the even one on a tie.
\<close>

theorem score_unrounded_skill_scores_rounded:
  assumes "calculate_score save questions p self = Inr att'"
  shows "(0 < total_points questions \<longrightarrow>
            score att' =
              fl (fl (of_nat (total_points (filter (answered_correctly (answers self)) questions))
                        / of_nat (total_points questions)) * 100)
            \<and> \<bar>score att' -
                 of_nat (total_points (filter (answered_correctly (answers self)) questions))
                   / of_nat (total_points questions) * 100\<bar> \<le> 2 powi (- 45))
       \<and> (\<forall>q \<in> set questions.
            0 < total_points (filter (\<lambda>q'. skill_of q' = skill_of q) questions) \<longrightarrow>
            map_of (skill_scores att') (skill_of q) =
              Some (py_round2 (fl (fl
                (of_nat (total_points (filter (\<lambda>q'. skill_of q' = skill_of q
                                                  \<and> answered_correctly (answers self) q') questions))
                  / of_nat (total_points (filter (\<lambda>q'. skill_of q' = skill_of q) questions)))
                  * 100))))
       \<and> (\<forall>x. \<exists>n::int. py_round2 x = fl (of_int n / 100) \<and> \<bar>of_int n - x * 100\<bar> \<le> 1 / 2
                \<and> (\<bar>of_int n - x * 100\<bar> = 1 / 2 \<longrightarrow> even n))"
proof (rule calculate_score_returned[OF assms])
  fix st
  assume st: "score_questions (answers self) questions initial_state = Inr st"
    and att': "att' = scored questions p self st"
  note s = scored_state[OF st]
  have 1: "score att' =
              fl (fl (of_nat (total_points (filter (answered_correctly (answers self)) questions))
                        / of_nat (total_points questions)) * 100)
            \<and> \<bar>score att' -
                 of_nat (total_points (filter (answered_correctly (answers self)) questions))
                   / of_nat (total_points questions) * 100\<bar> \<le> 2 powi (- 45)"
    if pos: "0 < total_points questions"
  proof -
    have "score att' = fl (fl (of_nat (earned_points st) / of_nat (total_points questions)) * 100)"
      unfolding att' scored_def using pos by simp
    with percent_result(4)[OF s(2) pos] show ?thesis unfolding s(1) by simp
  qed
  have 2: "map_of (skill_scores att') (skill_of q) =
              Some (py_round2 (fl (fl
                (of_nat (total_points (filter (\<lambda>q'. skill_of q' = skill_of q
                                                  \<and> answered_correctly (answers self) q') questions))
                  / of_nat (total_points (filter (\<lambda>q'. skill_of q' = skill_of q) questions)))
                  * 100)))"
    if q: "q \<in> set questions"
      and pos: "0 < total_points (filter (\<lambda>q'. skill_of q' = skill_of q) questions)" for q
  proof -
    from q s(3) have "skill_of q \<in> fst ` set (skill_total st)" by blast
    from map_of_dict_get[OF this, of 0]
    have "map_of (skill_total st) (skill_of q) =
            Some (total_points (filter (\<lambda>q'. skill_of q' = skill_of q) questions))"
      by (simp add: s(5))
    then have "map_of (skill_scores att') (skill_of q) =
            Some (percentage (dict_get (skill_correct st) (skill_of q) 0)
                    (total_points (filter (\<lambda>q'. skill_of q' = skill_of q) questions)))"
      unfolding att' scored_def by (simp add: fold_dict_set_value[OF s(4)])
    then show ?thesis using pos by (simp add: percentage_def s(6))
  qed
  from 1 2 py_round2_spec show ?thesis by blast
qed

lemma twenty_nine_of_fifty:
  "calculate_score save_json [q29, q21] 58 (new_attempt [(''8'', PInt 0), (''9'', PInt 1)]) =
     Inr \<lparr>answers = [(''8'', PInt 0), (''9'', PInt 1)],
          score = 8162774324609023 / 140737488355328, passed = False,
          skill_scores = [(''General'', 58)]\<rparr>"
  by code_simp

lemma twenty_three_of_160:
  "calculate_score save_json [q23, q137] 10 (new_attempt [(''10'', PInt 0), (''11'', PInt 1)]) =
     Inr \<lparr>answers = [(''10'', PInt 0), (''11'', PInt 1)],
          score = 8092405580431359 / 562949953421312, passed = True,
          skill_scores = [(''General'', 8089590830664253 / 562949953421312)]\<rparr>"
  by code_simp

theorem score_unrounded_skill_scores_rounded_witness:
  "(8162774324609023 / 140737488355328 :: rat) =
     fl (fl (of_nat (total_points (filter (answered_correctly
        [(''8'', PInt 0), (''9'', PInt 1)]) [q29, q21])) / of_nat (total_points [q29, q21])) * 100)
   \<and> \<bar>8162774324609023 / 140737488355328 - (58::rat)\<bar> \<le> 2 powi (- 45)
   \<and> (8162774324609023 / 140737488355328 :: rat) < 58
   \<and> map_of [(''General'', 58 :: rat)] ''General'' =
       Some (py_round2 (8162774324609023 / 140737488355328))"
proof -
  let ?ans = "[(''8'', PInt 0), (''9'', PInt 1)]"
  let ?att = "\<lparr>answers = ?ans, score = 8162774324609023 / 140737488355328, passed = False,
          skill_scores = [(''General'', 58 :: rat)]\<rparr>"
  let ?E = "total_points (filter (answered_correctly ?ans) [q29, q21])"
  have t: "0 < total_points [q29, q21]"
    and l: "q29 \<in> set [q29, q21]"
    and k: "skill_of q29 = ''General''"
    and s: "0 < total_points (filter (\<lambda>q'. skill_of q' = skill_of q29) [q29, q21])"
    by code_simp+
  have e: "(of_nat ?E / of_nat (total_points [q29, q21]) * 100 :: rat) = 58"
    by code_simp
  have v: "fl (fl (of_nat (total_points (filter (\<lambda>q'. skill_of q' = skill_of q29
              \<and> answered_correctly (answers (new_attempt ?ans)) q') [q29, q21]))
             / of_nat (total_points (filter (\<lambda>q'. skill_of q' = skill_of q29) [q29, q21])))
             * 100) = (8162774324609023 / 140737488355328 :: rat)"
    by code_simp
  have an: "answers (new_attempt ?ans) = ?ans" by (simp add: new_attempt_def)
  note main = score_unrounded_skill_scores_rounded[OF twenty_nine_of_fifty]
  from main t have a: "score ?att = fl (fl (of_nat ?E / of_nat (total_points [q29, q21])) * 100)
      \<and> \<bar>score ?att - of_nat ?E / of_nat (total_points [q29, q21]) * 100\<bar> \<le> 2 powi (- 45)"
    unfolding an by blast
  from main l s have b: "map_of (skill_scores ?att) (skill_of q29) =
      Some (py_round2 (fl (fl (of_nat (total_points (filter (\<lambda>q'. skill_of q' = skill_of q29
              \<and> answered_correctly (answers (new_attempt ?ans)) q') [q29, q21]))
             / of_nat (total_points (filter (\<lambda>q'. skill_of q' = skill_of q29) [q29, q21])))
             * 100)))"
    by blast
  from b have b': "map_of (skill_scores ?att) (skill_of q29) =
      Some (py_round2 (8162774324609023 / 140737488355328))"
    by (simp only: v)
  from a have a1: "score ?att = fl (fl (of_nat ?E / of_nat (total_points [q29, q21])) * 100)"
    and a2: "\<bar>score ?att - of_nat ?E / of_nat (total_points [q29, q21]) * 100\<bar> \<le> 2 powi (- 45)"
    by blast+
  from a2 have a3: "\<bar>score ?att - 58\<bar> \<le> 2 powi (- 45)"
    by (simp only: e)
  from a1 have "(8162774324609023 / 140737488355328 :: rat) =
      fl (fl (of_nat ?E / of_nat (total_points [q29, q21])) * 100)"
    by (simp only: attempt.select_convs)
  moreover from a3 have "\<bar>8162774324609023 / 140737488355328 - (58::rat)\<bar> \<le> 2 powi (- 45)"
    by (simp only: attempt.select_convs)
  moreover have "(8162774324609023 / 140737488355328 :: rat) < 58" by simp
  moreover from b' have "map_of [(''General'', 58 :: rat)] ''General'' =
      Some (py_round2 (8162774324609023 / 140737488355328))"
    by (simp only: k attempt.select_convs)
  ultimately show ?thesis by blast
qed

text \<open>
  The claim as stated fails: with 1 of 32 points the score returned is 3.125 and the
  percentage stored for the skill is the double 3.12, where rounding half up gives 3.13.
\<close>

theorem score_is_not_rounded_half_up:
  "calculate_score save_json [light, heavy] 70 (new_attempt [(''5'', PInt 0), (''6'', PInt 1)]) =
     Inr \<lparr>answers = [(''5'', PInt 0), (''6'', PInt 1)], score = 25 / 8, passed = False,
          skill_scores = [(''General'', 3512807709348987 / 1125899906842624)]\<rparr>
   \<and> round_half_up2 (of_nat 1 / of_nat 32 * 100) = 313 / 100
   \<and> fl (313 / 100) = 3524066708417413 / 1125899906842624
   \<and> fl (312 / 100) = 3512807709348987 / 1125899906842624
   \<and> (25 / 8 :: rat) \<noteq> 313 / 100
   \<and> (25 / 8 :: rat) \<noteq> 3524066708417413 / 1125899906842624
   \<and> (3512807709348987 / 1125899906842624 :: rat) \<noteq> 3524066708417413 / 1125899906842624"
  by code_simp


end
